theory Spec2Isabelle
  imports Complex_Main "HOL-Library.AList"
begin

section \<open>The relay server of \<open>src/websocket_server.py\<close>\<close>

text \<open>
  The server keeps three dictionaries in one \<open>ConnectionManager\<close> object and pushes JSON
  frames over WebSocket objects. A Python \<open>dict\<close> is modelled as an association list in
  insertion order: \<open>d[k] = v\<close> is \<^const>\<open>AList.update\<close> (replace in place, or append),
  \<open>del d[k]\<close> and \<open>d.pop(k)\<close> are \<^const>\<open>AList.delete\<close>, \<open>d.get(k)\<close> is \<^const>\<open>map_of\<close>,
  \<open>k in d\<close> is \<open>k \<in> keys d\<close> and \<open>len(d)\<close> is \<^const>\<open>length\<close>.
\<close>

definition keys :: "('k \<times> 'v) list \<Rightarrow> 'k set" where
  "keys d = fst ` set d"

subsection \<open>Data\<close>

type_synonym user_id = string

text \<open>A WebSocket object is known by its identity only.\<close>

type_synonym WebSocket = nat

text \<open>What \<open>json.loads\<close> returns.\<close>

datatype json =
    JNull
  | JBool bool
  | JInt int
  | JFloat real
  | JString string
  | JArray "json list"
  | JObject "(string \<times> json) list"

text \<open>
  The dictionaries handed to \<open>send_json\<close>, one constructor for each shape the server builds:
  \<open>otp_info\<close> (otp, email, sender, domain, timestamp), \<open>email_info\<close> (email, timestamp),
  \<open>{"type": "ping"}\<close>, \<open>{"type": "pong"}\<close>, the reply to a status request
  (connected is always True; email, timestamp) and the broadcast status
  (connected_users, pending_otps, timestamp).
\<close>

datatype frame =
    OtpInfo string string string string real
  | EmailInfo string real
  | Ping
  | Pong
  | StatusReply "string option" real
  | ServerStatus nat nat string

record OTPData =
  user_id :: user_id
  otp :: string
  email :: string
  sender :: string
  domain :: string

record EmailData =
  email_user_id :: user_id
  email_address :: string

text \<open>
  The three dictionaries of \<open>ConnectionManager\<close>, and \<open>wire\<close>: every frame that a
  \<open>send_json\<close> call has written without raising, oldest first, with the socket it went to.
\<close>

record state =
  active_connections :: "(user_id \<times> WebSocket) list"
  pending_otps :: "(user_id \<times> frame) list"
  user_emails :: "(user_id \<times> string) list"
  wire :: "(WebSocket \<times> frame) list"

definition init :: state where
  "init = \<lparr>active_connections = [], pending_otps = [], user_emails = [], wire = []\<rparr>"

subsection \<open>Sending\<close>

text \<open>
  \<open>websocket.send_json(data)\<close>: the sockets in \<open>broken\<close> raise, every other socket takes
  the frame. \<open>None\<close> is the exception.
\<close>

definition send_json :: "WebSocket set \<Rightarrow> WebSocket \<Rightarrow> frame \<Rightarrow> state \<Rightarrow> state option" where
  "send_json broken websocket data s =
     (if websocket \<in> broken then None else Some (s\<lparr>wire := wire s @ [(websocket, data)]\<rparr>))"

subsection \<open>ConnectionManager\<close>

definition disconnect :: "user_id \<Rightarrow> state \<Rightarrow> state" where
  "disconnect uid s =
     (if uid \<in> keys (active_connections s)
      then s\<lparr>active_connections := AList.delete uid (active_connections s)\<rparr>
      else s)"

text \<open>The result is the returned flag and the state left behind.\<close>

definition send_otp :: "WebSocket set \<Rightarrow> user_id \<Rightarrow> frame \<Rightarrow> state \<Rightarrow> bool \<times> state" where
  "send_otp broken uid data s =
     (case map_of (active_connections s) uid of
        Some websocket \<Rightarrow>
          (case send_json broken websocket data s of
             Some s' \<Rightarrow> (True, s')
           | None \<Rightarrow> (False, disconnect uid s))
      | None \<Rightarrow> (False, s))"

text \<open>
  \<open>connect\<close> first awaits \<open>websocket.accept()\<close>; when that raises (\<open>accepted\<close> is False)
  nothing has been changed and the exception leaves \<open>connect\<close>: the result is \<open>None\<close>.
  The argument \<open>self.pending_otps.pop(user_id)\<close> is evaluated before \<open>send_otp\<close> runs.
\<close>

definition connect :: "bool \<Rightarrow> WebSocket set \<Rightarrow> WebSocket \<Rightarrow> user_id \<Rightarrow> state \<Rightarrow> state option" where
  "connect accepted broken websocket uid s =
     (if \<not> accepted then None
      else
        let s1 = s\<lparr>active_connections := AList.update uid websocket (active_connections s)\<rparr> in
        (case map_of (pending_otps s1) uid of
           Some data \<Rightarrow>
             Some (snd (send_otp broken uid data
                          (s1\<lparr>pending_otps := AList.delete uid (pending_otps s1)\<rparr>)))
         | None \<Rightarrow> Some s1))"

text \<open>The loop of \<open>broadcast_status\<close> over the snapshot \<open>list(self.active_connections.items())\<close>.\<close>

fun broadcast_loop :: "WebSocket set \<Rightarrow> frame \<Rightarrow> (user_id \<times> WebSocket) list \<Rightarrow> state \<Rightarrow> state" where
  "broadcast_loop broken status [] s = s"
| "broadcast_loop broken status ((uid, websocket) # rest) s =
     (case send_json broken websocket status s of
        Some s' \<Rightarrow> broadcast_loop broken status rest s'
      | None \<Rightarrow> broadcast_loop broken status rest (disconnect uid s))"

text \<open>\<open>now\<close> is \<open>datetime.now().isoformat()\<close>.\<close>

definition broadcast_status :: "WebSocket set \<Rightarrow> string \<Rightarrow> state \<Rightarrow> state" where
  "broadcast_status broken now s =
     (let status = ServerStatus (length (active_connections s)) (length (pending_otps s)) now
      in broadcast_loop broken status (active_connections s) s)"

subsection \<open>HTTP handlers\<close>

text \<open>
  \<open>now\<close> is \<open>time.time()\<close>. The returned dictionary \<open>{"status": ..., "user_id": ...}\<close> is the
  pair of its two values.
\<close>

text \<open>The dictionary \<open>otp_info\<close> that \<open>receive_otp\<close> builds from the request and the clock.\<close>

definition otp_info :: "real \<Rightarrow> OTPData \<Rightarrow> frame" where
  "otp_info now data = OtpInfo (otp data) (email data) (sender data) (domain data) now"

definition receive_otp :: "WebSocket set \<Rightarrow> real \<Rightarrow> OTPData \<Rightarrow> state \<Rightarrow> (string \<times> user_id) \<times> state" where
  "receive_otp broken now data s =
     (let (sent, s') = send_otp broken (user_id data) (otp_info now data) s
      in if sent then ((''delivered'', user_id data), s')
         else ((''pending'', user_id data),
               s'\<lparr>pending_otps := AList.update (user_id data) (otp_info now data) (pending_otps s')\<rparr>))"

text \<open>The returned dictionary \<open>{"status": "registered", "email": ...}\<close> is the pair of its values.\<close>

text \<open>The dictionary \<open>email_info\<close> of \<open>register_email\<close>.\<close>

definition email_info :: "real \<Rightarrow> EmailData \<Rightarrow> frame" where
  "email_info now data = EmailInfo (email_address data) now"

text \<open>The flag that \<open>send_otp\<close> returns is dropped.\<close>

definition register_email :: "WebSocket set \<Rightarrow> real \<Rightarrow> EmailData \<Rightarrow> state \<Rightarrow> (string \<times> string) \<times> state" where
  "register_email broken now data s =
     (let s1 = s\<lparr>user_emails :=
                  AList.update (email_user_id data) (email_address data) (user_emails s)\<rparr>;
          (sent, s2) = send_otp broken (email_user_id data) (email_info now data) s1
      in ((''registered'', email_address data), s2))"

text \<open>\<open>GET /api/status/{user_id}\<close>: connected, email, has_pending.\<close>

definition user_status :: "user_id \<Rightarrow> state \<Rightarrow> bool \<times> string option \<times> bool" where
  "user_status uid s =
     (uid \<in> keys (active_connections s),
      map_of (user_emails s) uid,
      uid \<in> keys (pending_otps s))"

subsection \<open>The loop of \<open>websocket_endpoint\<close>\<close>

text \<open>
  What \<open>json.loads(data)\<close> makes of a received text: it raises \<open>JSONDecodeError\<close> or
  returns a value.
\<close>

datatype decoded = JSONDecodeError | Decoded json

text \<open>
  How \<open>websocket.receive_text()\<close> ends when it is left to run: with a text, with
  \<open>WebSocketDisconnect\<close>, or with another exception.
\<close>

datatype received = Text decoded | WebSocketDisconnect | ReceiveError

text \<open>
  \<open>asyncio.wait_for(websocket.receive_text(), timeout=30)\<close>. The client's next move is
  \<open>None\<close> when nothing ever comes, or the delay after which \<open>receive_text\<close> would end and
  how. \<open>None\<close> as a result is \<open>asyncio.TimeoutError\<close>.
\<close>

definition wait_for :: "real \<Rightarrow> (real \<times> received) option \<Rightarrow> received option" where
  "wait_for timeout incoming =
     (case incoming of
        None \<Rightarrow> None
      | Some (delay, r) \<Rightarrow> if delay \<le> timeout then Some r else None)"

text \<open>
  One pass of the \<open>while True\<close> body ends in \<open>Continue\<close> (the loop goes on) or in \<open>Exit\<close>: an
  exception reached one of the two outer handlers, which both call \<open>manager.disconnect\<close>,
  and the endpoint returns.
\<close>

datatype loop = Continue state | Exit state

text \<open>
  \<open>await websocket.send_json(f)\<close> inside the outer \<open>try\<close>: the loop's own socket is used,
  not the registry's.
\<close>

definition send_or_exit :: "WebSocket set \<Rightarrow> WebSocket \<Rightarrow> user_id \<Rightarrow> frame \<Rightarrow> state \<Rightarrow> loop" where
  "send_or_exit broken websocket uid f s =
     (case send_json broken websocket f s of
        Some s' \<Rightarrow> Continue s'
      | None \<Rightarrow> Exit (disconnect uid s))"

text \<open>
  \<open>message.get("type")\<close> exists on a dictionary only: any other JSON value raises
  \<open>AttributeError\<close>, which like \<open>JSONDecodeError\<close> is not the \<open>asyncio.TimeoutError\<close> of
  the inner handler and so reaches \<open>except Exception\<close>.
\<close>

definition handle_message :: "WebSocket set \<Rightarrow> real \<Rightarrow> WebSocket \<Rightarrow> user_id \<Rightarrow> json \<Rightarrow> state \<Rightarrow> loop" where
  "handle_message broken now websocket uid message s =
     (case message of
        JObject d \<Rightarrow>
          if map_of d ''type'' = Some (JString ''ping'')
          then send_or_exit broken websocket uid Pong s
          else if map_of d ''type'' = Some (JString ''status'')
          then send_or_exit broken websocket uid (StatusReply (map_of (user_emails s) uid) now) s
          else Continue s
      | _ \<Rightarrow> Exit (disconnect uid s))"

definition loop_body ::
  "WebSocket set \<Rightarrow> real \<Rightarrow> WebSocket \<Rightarrow> user_id \<Rightarrow> (real \<times> received) option \<Rightarrow> state \<Rightarrow> loop" where
  "loop_body broken now websocket uid incoming s =
     (case wait_for 30 incoming of
        None \<Rightarrow> send_or_exit broken websocket uid Ping s
      | Some (Text JSONDecodeError) \<Rightarrow> Exit (disconnect uid s)
      | Some (Text (Decoded message)) \<Rightarrow> handle_message broken now websocket uid message s
      | Some WebSocketDisconnect \<Rightarrow> Exit (disconnect uid s)
      | Some ReceiveError \<Rightarrow> Exit (disconnect uid s))"

text \<open>
  The loop over a finite script of passes, each with the sockets broken at that time, the
  clock and the client's next move. \<open>Continue\<close> at the end of the script means that the
  loop is still running.
\<close>

fun while_True ::
  "WebSocket \<Rightarrow> user_id \<Rightarrow> (WebSocket set \<times> real \<times> (real \<times> received) option) list \<Rightarrow> state \<Rightarrow> loop" where
  "while_True websocket uid [] s = Continue s"
| "while_True websocket uid ((broken, now, incoming) # rest) s =
     (case loop_body broken now websocket uid incoming s of
        Continue s' \<Rightarrow> while_True websocket uid rest s'
      | Exit s' \<Rightarrow> Exit s')"

subsection \<open>Histories\<close>

text \<open>
  The server starts from empty dictionaries and changes them only through the operations
  above, one at a time (every mutation happens inside the event loop). An event is one
  completed operation together with what the outside world did during it.
\<close>

datatype event =
    Connect bool "WebSocket set" WebSocket user_id
  | Disconnect user_id
  | ReceiveOtp "WebSocket set" real OTPData
  | RegisterEmail "WebSocket set" real EmailData
  | BroadcastStatus "WebSocket set" string
  | LoopBody "WebSocket set" real WebSocket user_id "(real \<times> received) option"

fun step :: "event \<Rightarrow> state \<Rightarrow> state" where
  "step (Connect accepted broken websocket uid) s =
     (case connect accepted broken websocket uid s of Some s' \<Rightarrow> s' | None \<Rightarrow> s)"
| "step (Disconnect uid) s = disconnect uid s"
| "step (ReceiveOtp broken now data) s = snd (receive_otp broken now data s)"
| "step (RegisterEmail broken now data) s = snd (register_email broken now data s)"
| "step (BroadcastStatus broken now) s = broadcast_status broken now s"
| "step (LoopBody broken now websocket uid incoming) s =
     (case loop_body broken now websocket uid incoming s of Continue s' \<Rightarrow> s' | Exit s' \<Rightarrow> s')"

definition run :: "event list \<Rightarrow> state" where
  "run evs = foldl (\<lambda>s e. step e s) init evs"

text \<open>A registered client has nothing in the pending queue.\<close>

definition no_pending_while_connected :: "state \<Rightarrow> bool" where
  "no_pending_while_connected s =
     (\<forall>uid \<in> keys (active_connections s). uid \<notin> keys (pending_otps s))"

text \<open>Each of the three dictionaries holds a key once, as a Python \<open>dict\<close> does.\<close>

definition dicts :: "state \<Rightarrow> bool" where
  "dicts s =
     (distinct (map fst (active_connections s)) \<and>
      distinct (map fst (pending_otps s)) \<and>
      distinct (map fst (user_emails s)))"

subsection \<open>Example requests\<close>

definition alice_otp :: OTPData where
  "alice_otp = \<lparr>user_id = ''alice'', otp = ''123456'', email = ''a@x.com'',
                 sender = ''Unknown'', domain = []\<rparr>"

definition bob_email :: EmailData where
  "bob_email = \<lparr>email_user_id = ''bob'', email_address = ''b@x.com''\<rparr>"

section \<open>Dictionary facts\<close>

lemma keys_delete: "keys (AList.delete k al) = keys al - {k}"
  unfolding keys_def by (induction al) auto

lemma keys_update: "keys (AList.update k v al) = insert k (keys al)"
  unfolding keys_def by (simp add: dom_update)

lemma keys_map_of: "k \<in> keys al \<longleftrightarrow> map_of al k \<noteq> None"
  unfolding keys_def by (simp add: map_of_eq_None_iff)

lemma map_of_keys_None: "map_of al k = None \<longleftrightarrow> k \<notin> keys al"
  unfolding keys_def by (simp add: map_of_eq_None_iff)

lemma delete_absent: "k \<notin> keys al \<Longrightarrow> AList.delete k al = al"
  unfolding keys_def by simp

section \<open>Field-wise facts\<close>

lemma disconnect_eq:
  "disconnect uid s = s\<lparr>active_connections := AList.delete uid (active_connections s)\<rparr>"
  by (simp add: disconnect_def delete_absent)

lemma send_otp_cases:
  "send_otp broken uid data s =
     (case map_of (active_connections s) uid of
        None \<Rightarrow> (False, s)
      | Some w \<Rightarrow> if w \<in> broken then (False, disconnect uid s)
                  else (True, s\<lparr>wire := wire s @ [(w, data)]\<rparr>))"
  by (simp add: send_otp_def send_json_def split: option.splits)

lemma send_otp_pending:
  "pending_otps (snd (send_otp broken uid data s)) = pending_otps s"
  by (simp add: send_otp_cases disconnect_eq split: option.splits)

lemma send_otp_active_keys:
  "keys (active_connections (snd (send_otp broken uid data s))) \<subseteq> keys (active_connections s)"
  by (auto simp: send_otp_cases disconnect_eq keys_delete split: option.splits)

lemma send_otp_False_unregistered:
  "send_otp broken uid data s = (False, s') \<Longrightarrow> uid \<notin> keys (active_connections s')"
  by (auto simp: send_otp_cases disconnect_eq keys_delete map_of_keys_None
      split: option.splits if_splits)

section \<open>The invariant\<close>

lemma send_otp_inv:
  "no_pending_while_connected s \<Longrightarrow> no_pending_while_connected (snd (send_otp broken uid data s))"
  using send_otp_active_keys [of broken uid data s]
  by (auto simp: no_pending_while_connected_def send_otp_pending)

lemma disconnect_inv:
  "no_pending_while_connected s \<Longrightarrow> no_pending_while_connected (disconnect uid s)"
  by (auto simp: no_pending_while_connected_def disconnect_eq keys_delete)

lemma connect_inv:
  assumes inv: "no_pending_while_connected s"
    and c: "connect accepted broken w uid s = Some s'"
  shows "no_pending_while_connected s'"
proof -
  let ?s1 = "s\<lparr>active_connections := AList.update uid w (active_connections s)\<rparr>"
  show ?thesis
  proof (cases "map_of (pending_otps s) uid")
    case None
    then have "uid \<notin> keys (pending_otps s)" by (simp add: map_of_keys_None)
    moreover from c None have "s' = ?s1" by (simp add: connect_def split: if_splits)
    ultimately show ?thesis using inv
      by (auto simp: no_pending_while_connected_def keys_update)
  next
    case (Some m)
    let ?s2 = "?s1\<lparr>pending_otps := AList.delete uid (pending_otps s)\<rparr>"
    have "no_pending_while_connected ?s2" using inv
      by (auto simp: no_pending_while_connected_def keys_update keys_delete)
    moreover from c Some have "s' = snd (send_otp broken uid m ?s2)"
      by (simp add: connect_def split: if_splits)
    ultimately show ?thesis by (simp add: send_otp_inv)
  qed
qed

lemma receive_otp_inv:
  assumes inv: "no_pending_while_connected s"
  shows "no_pending_while_connected (snd (receive_otp broken now data s))"
proof -
  let ?m = "otp_info now data"
  obtain sent s' where so: "send_otp broken (user_id data) ?m s = (sent, s')"
    by (cases "send_otp broken (user_id data) ?m s")
  have inv': "no_pending_while_connected s'"
    using send_otp_inv [OF inv, of broken "user_id data" ?m] so by simp
  show ?thesis
  proof (cases sent)
    case True
    then show ?thesis using so inv' by (simp add: receive_otp_def)
  next
    case False
    with so have "user_id data \<notin> keys (active_connections s')"
      by (auto dest: send_otp_False_unregistered)
    then show ?thesis using so inv' False
      by (auto simp: receive_otp_def no_pending_while_connected_def keys_update)
  qed
qed

lemma register_email_inv:
  assumes inv: "no_pending_while_connected s"
  shows "no_pending_while_connected (snd (register_email broken now data s))"
proof -
  let ?s1 = "s\<lparr>user_emails := AList.update (email_user_id data) (email_address data) (user_emails s)\<rparr>"
  have "no_pending_while_connected ?s1" using inv by (simp add: no_pending_while_connected_def)
  then have "no_pending_while_connected
      (snd (send_otp broken (email_user_id data) (email_info now data) ?s1))"
    by (rule send_otp_inv)
  then show ?thesis by (simp add: register_email_def Let_def case_prod_beta)
qed

lemma broadcast_loop_inv:
  "no_pending_while_connected s \<Longrightarrow> no_pending_while_connected (broadcast_loop broken st xs s)"
proof (induction xs arbitrary: s)
  case Nil
  then show ?case by simp
next
  case (Cons x xs)
  obtain uid w where x: "x = (uid, w)" by (cases x)
  show ?case
  proof (cases "w \<in> broken")
    case True
    then show ?thesis using Cons x by (simp add: send_json_def disconnect_inv)
  next
    case False
    have "no_pending_while_connected (s\<lparr>wire := wire s @ [(w, st)]\<rparr>)"
      using Cons.prems by (simp add: no_pending_while_connected_def)
    then show ?thesis using Cons.IH x False by (simp add: send_json_def)
  qed
qed

lemma loop_body_inv:
  assumes inv: "no_pending_while_connected s"
  shows "no_pending_while_connected
           (case loop_body broken now w uid incoming s of Continue s' \<Rightarrow> s' | Exit s' \<Rightarrow> s')"
proof -
  have wire: "\<And>f. no_pending_while_connected (s\<lparr>wire := wire s @ [(w, f)]\<rparr>)"
    using inv by (simp add: no_pending_while_connected_def)
  have soe: "\<And>f. no_pending_while_connected
      (case send_or_exit broken w uid f s of Continue s' \<Rightarrow> s' | Exit s' \<Rightarrow> s')"
    using wire disconnect_inv [OF inv] by (simp add: send_or_exit_def send_json_def)
  have hm: "\<And>m. no_pending_while_connected
      (case handle_message broken now w uid m s of Continue s' \<Rightarrow> s' | Exit s' \<Rightarrow> s')"
    using soe inv disconnect_inv [OF inv] by (simp add: handle_message_def split: json.splits)
  show ?thesis
    using soe hm disconnect_inv [OF inv]
    by (simp add: loop_body_def split: option.splits received.splits decoded.splits)
qed

lemma step_inv: "no_pending_while_connected s \<Longrightarrow> no_pending_while_connected (step e s)"
proof (cases e)
  case (Connect a b w u)
  assume "no_pending_while_connected s"
  then show ?thesis using Connect by (auto split: option.splits intro: connect_inv)
qed (simp_all add: disconnect_inv receive_otp_inv register_email_inv broadcast_loop_inv
       broadcast_status_def loop_body_inv)

lemma init_inv: "no_pending_while_connected init"
  by (simp add: no_pending_while_connected_def init_def keys_def)

lemma foldl_step_inv:
  "no_pending_while_connected s \<Longrightarrow> no_pending_while_connected (foldl (\<lambda>s e. step e s) s evs)"
  by (induction evs arbitrary: s) (simp_all add: step_inv)

lemma run_inv: "no_pending_while_connected (run evs)"
  unfolding run_def by (rule foldl_step_inv [OF init_inv])

section \<open>What each handler leaves behind\<close>

lemma one_entry_after_update:
  "distinct (map fst al) \<Longrightarrow> length (filter (\<lambda>p. fst p = k) (AList.update k v al)) = 1"
proof (induction al)
  case Nil
  then show ?case by simp
next
  case (Cons p ps)
  show ?case
  proof (cases "fst p = k")
    case True
    with Cons.prems have "k \<notin> fst ` set ps" by auto
    then have "filter (\<lambda>p. fst p = k) ps = []" by (auto simp: filter_empty_conv)
    with True show ?thesis by (cases p) simp
  next
    case False
    with Cons show ?thesis by (cases p) simp
  qed
qed

lemma receive_otp_registered:
  assumes "map_of (active_connections s) (user_id data) = Some websocket" and "websocket \<notin> broken"
  shows "receive_otp broken now data s =
     ((''delivered'', user_id data), s\<lparr>wire := wire s @ [(websocket, otp_info now data)]\<rparr>)"
  using assms by (simp add: receive_otp_def send_otp_cases)

lemma receive_otp_unregistered:
  assumes "user_id data \<notin> keys (active_connections s)"
  shows "receive_otp broken now data s =
     ((''pending'', user_id data),
      s\<lparr>pending_otps := AList.update (user_id data) (otp_info now data) (pending_otps s)\<rparr>)"
proof -
  from assms have "map_of (active_connections s) (user_id data) = None"
    by (simp add: map_of_keys_None)
  then show ?thesis by (simp add: receive_otp_def send_otp_cases)
qed

lemma connect_with_pending:
  assumes "map_of (pending_otps s) uid = Some data"
  shows "connect True broken websocket uid s =
     Some (if websocket \<in> broken
           then s\<lparr>active_connections := AList.delete uid (active_connections s),
                    pending_otps := AList.delete uid (pending_otps s)\<rparr>
           else s\<lparr>active_connections := AList.update uid websocket (active_connections s),
                    pending_otps := AList.delete uid (pending_otps s),
                    wire := wire s @ [(websocket, data)]\<rparr>)"
  using assms
  by (simp add: connect_def send_otp_cases update_conv' disconnect_eq delete_update_same)

lemma send_or_exit_up:
  "websocket \<notin> broken \<Longrightarrow>
   send_or_exit broken websocket uid f s = Continue (s\<lparr>wire := wire s @ [(websocket, f)]\<rparr>)"
  by (simp add: send_or_exit_def send_json_def)

lemma register_email_eq:
  "register_email broken now data s =
     ((''registered'', email_address data),
      snd (send_otp broken (email_user_id data) (email_info now data)
             (s\<lparr>user_emails :=
                  AList.update (email_user_id data) (email_address data) (user_emails s)\<rparr>)))"
  by (simp add: register_email_def Let_def case_prod_beta)

section \<open>The broadcast loop\<close>

lemma broadcast_loop_wire:
  "wire (broadcast_loop broken st xs s) =
     wire s @ map (\<lambda>(uid, websocket). (websocket, st))
                  (filter (\<lambda>(uid, websocket). websocket \<notin> broken) xs)"
proof (induction xs arbitrary: s)
  case Nil
  then show ?case by simp
next
  case (Cons x xs)
  obtain uid w where x: "x = (uid, w)" by (cases x)
  show ?case by (simp add: x Cons.IH send_json_def disconnect_eq)
qed

lemma broadcast_loop_rest:
  "pending_otps (broadcast_loop broken st xs s) = pending_otps s \<and>
   user_emails (broadcast_loop broken st xs s) = user_emails s"
proof (induction xs arbitrary: s)
  case Nil
  then show ?case by simp
next
  case (Cons x xs)
  obtain uid w where x: "x = (uid, w)" by (cases x)
  show ?case by (simp add: x Cons.IH send_json_def disconnect_eq)
qed

lemma delete_filter: "AList.delete k al = filter (\<lambda>p. fst p \<noteq> k) al"
  by (induction al) auto

lemma broadcast_loop_active:
  "active_connections (broadcast_loop broken st xs s) =
     filter (\<lambda>p. fst p \<notin> fst ` {q \<in> set xs. snd q \<in> broken}) (active_connections s)"
proof (induction xs arbitrary: s)
  case Nil
  then show ?case by simp
next
  case (Cons x xs)
  obtain uid w where x: "x = (uid, w)" by (cases x)
  show ?case
  proof (cases "w \<in> broken")
    case True
    have "{q \<in> set (x # xs). snd q \<in> broken} = insert x {q \<in> set xs. snd q \<in> broken}"
      using True x by auto
    then show ?thesis
      using True by (simp add: x Cons.IH send_json_def disconnect_eq delete_filter)
  next
    case False
    have "{q \<in> set (x # xs). snd q \<in> broken} = {q \<in> set xs. snd q \<in> broken}"
      using False x by auto
    then show ?thesis
      using False by (simp add: x Cons.IH send_json_def)
  qed
qed

lemma failing_keys_distinct:
  assumes "distinct (map fst al)"
  shows "filter (\<lambda>p. fst p \<notin> fst ` {q \<in> set al. snd q \<in> broken}) al =
         filter (\<lambda>(uid, websocket). websocket \<notin> broken) al"
proof (rule filter_cong [OF refl])
  fix p assume p: "p \<in> set al"
  have "fst p \<in> fst ` {q \<in> set al. snd q \<in> broken} \<longleftrightarrow> snd p \<in> broken"
  proof
    assume "fst p \<in> fst ` {q \<in> set al. snd q \<in> broken}"
    then obtain q where q: "q \<in> set al" "snd q \<in> broken" "fst q = fst p" by auto
    with assms p have "q = p"
      by (metis eq_key_imp_eq_value prod.collapse)
    with q show "snd p \<in> broken" by simp
  next
    assume "snd p \<in> broken"
    with p show "fst p \<in> fst ` {q \<in> set al. snd q \<in> broken}" by auto
  qed
  then show "(fst p \<notin> fst ` {q \<in> set al. snd q \<in> broken}) =
             (case p of (uid, websocket) \<Rightarrow> websocket \<notin> broken)"
    by (cases p) simp
qed

section \<open>Dictionaries stay dictionaries\<close>

text \<open>
  Along every history each of the three association lists holds a key at most once, so
  it stands for a Python \<open>dict\<close> and \<^const>\<open>length\<close> is its \<open>len\<close>.
\<close>

lemma dicts_wire [simp]: "dicts (s\<lparr>wire := w\<rparr>) = dicts s"
  by (simp add: dicts_def)

lemma disconnect_dicts: "dicts s \<Longrightarrow> dicts (disconnect uid s)"
  by (simp add: dicts_def disconnect_eq distinct_delete)

lemma send_otp_dicts: "dicts s \<Longrightarrow> dicts (snd (send_otp broken uid data s))"
  by (simp add: send_otp_cases disconnect_dicts split: option.splits)

lemma connect_dicts:
  "dicts s \<Longrightarrow> connect accepted broken w uid s = Some s' \<Longrightarrow> dicts s'"
proof -
  assume d: "dicts s" and c: "connect accepted broken w uid s = Some s'"
  let ?s1 = "s\<lparr>active_connections := AList.update uid w (active_connections s)\<rparr>"
  have d1: "dicts ?s1" using d by (simp add: dicts_def distinct_update)
  then have d2: "dicts (?s1\<lparr>pending_otps := AList.delete uid (pending_otps s)\<rparr>)"
    by (simp add: dicts_def distinct_delete)
  show ?thesis
    using c d1 send_otp_dicts [OF d2]
    by (auto simp: connect_def Let_def split: if_splits option.splits)
qed

lemma receive_otp_dicts: "dicts s \<Longrightarrow> dicts (snd (receive_otp broken now data s))"
proof -
  assume d: "dicts s"
  obtain sent s' where so: "send_otp broken (user_id data) (otp_info now data) s = (sent, s')"
    by (cases "send_otp broken (user_id data) (otp_info now data) s")
  have "dicts s'" using send_otp_dicts [OF d, of broken "user_id data" "otp_info now data"] so by simp
  then show ?thesis using so by (simp add: receive_otp_def dicts_def distinct_update)
qed

lemma register_email_dicts: "dicts s \<Longrightarrow> dicts (snd (register_email broken now data s))"
proof -
  assume d: "dicts s"
  then have "dicts (s\<lparr>user_emails :=
      AList.update (email_user_id data) (email_address data) (user_emails s)\<rparr>)"
    by (simp add: dicts_def distinct_update)
  then show ?thesis
    by (simp add: register_email_def Let_def case_prod_beta send_otp_dicts)
qed

lemma broadcast_loop_dicts: "dicts s \<Longrightarrow> dicts (broadcast_loop broken st xs s)"
proof (induction xs arbitrary: s)
  case Nil
  then show ?case by simp
next
  case (Cons x xs)
  obtain uid w where x: "x = (uid, w)" by (cases x)
  show ?case using Cons by (simp add: x send_json_def disconnect_dicts)
qed

lemma loop_body_dicts:
  assumes d: "dicts s"
  shows "dicts (case loop_body broken now w uid incoming s of Continue s' \<Rightarrow> s' | Exit s' \<Rightarrow> s')"
proof -
  have soe: "\<And>f. dicts (case send_or_exit broken w uid f s of Continue s' \<Rightarrow> s' | Exit s' \<Rightarrow> s')"
    using d disconnect_dicts [OF d] by (simp add: send_or_exit_def send_json_def)
  have hm: "\<And>m. dicts (case handle_message broken now w uid m s of Continue s' \<Rightarrow> s' | Exit s' \<Rightarrow> s')"
    using soe d disconnect_dicts [OF d] by (simp add: handle_message_def split: json.splits)
  show ?thesis
    using soe hm disconnect_dicts [OF d]
    by (simp add: loop_body_def split: option.splits received.splits decoded.splits)
qed

lemma step_dicts: "dicts s \<Longrightarrow> dicts (step e s)"
proof (cases e)
  case (Connect a b w u)
  assume "dicts s"
  then show ?thesis using Connect by (auto split: option.splits intro: connect_dicts)
qed (simp_all add: disconnect_dicts receive_otp_dicts register_email_dicts broadcast_loop_dicts
       broadcast_status_def loop_body_dicts)

lemma foldl_step_dicts: "dicts s \<Longrightarrow> dicts (foldl (\<lambda>s e. step e s) s evs)"
  by (induction evs arbitrary: s) (simp_all add: step_dicts)

lemma run_dicts: "dicts (run evs)"
  unfolding run_def by (rule foldl_step_dicts) (simp add: dicts_def init_def)

section \<open>The claims\<close>

subsection \<open>C7: \<open>disconnect\<close> is idempotent\<close>

text \<open>
  Claim C7. For every client id, \<open>disconnect\<close> is idempotent. It is a total function with no
  error result (the \<open>del\<close> is guarded by the membership test): called for an id with no
  registry entry it returns the state as it was; after it the id is not registered; a
  second call in a row changes nothing and the id is still not registered.
\<close>

theorem disconnect_idempotent:
  "uid \<notin> keys (active_connections (disconnect uid s)) \<and>
   disconnect uid (disconnect uid s) = disconnect uid s \<and>
   uid \<notin> keys (active_connections (disconnect uid (disconnect uid s))) \<and>
   (uid \<notin> keys (active_connections s) \<longrightarrow> disconnect uid s = s)"
  by (simp add: disconnect_def keys_delete)

theorem disconnect_idempotent_witness:
  "''carol'' \<notin> keys (active_connections (run [Connect True {} 7 ''alice''])) \<and>
   disconnect ''carol'' (run [Connect True {} 7 ''alice'']) = run [Connect True {} 7 ''alice''] \<and>
   ''carol'' \<notin> keys (active_connections (disconnect ''carol'' (run [Connect True {} 7 ''alice''])))"
  using disconnect_idempotent [of "''carol''" "run [Connect True {} 7 ''alice'']"]
  by (simp add: run_def init_def connect_def keys_def)

subsection \<open>C10: \<open>disconnect\<close> touches the registry only\<close>

text \<open>
  Claim C10. For every client id, \<open>disconnect\<close> changes \<open>active_connections\<close> only: the pending
  queue and the email map (and the frames already sent) are what they were, so the
  buffered message and the registered email of that client are still there.
\<close>

theorem disconnect_changes_registry_only:
  "pending_otps (disconnect uid s) = pending_otps s \<and>
   user_emails (disconnect uid s) = user_emails s \<and>
   wire (disconnect uid s) = wire s \<and>
   map_of (pending_otps (disconnect uid s)) uid = map_of (pending_otps s) uid \<and>
   map_of (user_emails (disconnect uid s)) uid = map_of (user_emails s) uid"
  by (simp add: disconnect_eq)

subsection \<open>C9: a registered client has nothing pending\<close>

text \<open>
  Claim C9. The invariant \<open>no_pending_while_connected\<close> (a client id in the registry has no
  entry in the pending queue) holds in the initial state, is preserved by every completed
  operation (\<open>connect\<close>, \<open>disconnect\<close>, \<open>receive_otp\<close>, \<open>register_email\<close>, \<open>broadcast_status\<close>),
  and so holds after every history of operations.
\<close>

theorem registered_client_has_no_pending:
  "no_pending_while_connected init \<and>
   (no_pending_while_connected s \<longrightarrow>
      (\<forall>s'. connect accepted broken websocket uid s = Some s' \<longrightarrow> no_pending_while_connected s') \<and>
      no_pending_while_connected (disconnect uid s) \<and>
      no_pending_while_connected (snd (receive_otp broken now otp_data s)) \<and>
      no_pending_while_connected (snd (register_email broken now email_data s)) \<and>
      no_pending_while_connected (broadcast_status broken stamp s)) \<and>
   no_pending_while_connected (run evs)"
proof (intro conjI impI allI)
  show "no_pending_while_connected init" by (rule init_inv)
next
  fix s'
  assume "no_pending_while_connected s" and "connect accepted broken websocket uid s = Some s'"
  then show "no_pending_while_connected s'" by (rule connect_inv)
next
  assume "no_pending_while_connected s"
  then show "no_pending_while_connected (disconnect uid s)" by (rule disconnect_inv)
next
  assume "no_pending_while_connected s"
  then show "no_pending_while_connected (snd (receive_otp broken now otp_data s))"
    by (rule receive_otp_inv)
next
  assume "no_pending_while_connected s"
  then show "no_pending_while_connected (snd (register_email broken now email_data s))"
    by (rule register_email_inv)
next
  assume "no_pending_while_connected s"
  then show "no_pending_while_connected (broadcast_status broken stamp s)"
    by (simp add: broadcast_status_def broadcast_loop_inv)
next
  show "no_pending_while_connected (run evs)" by (rule run_inv)
qed

text \<open>
  An example history: a passcode for alice while she is away, alice connects (and gets it),
  bob connects, and a passcode for bob meets a broken socket. Alice is registered with
  nothing pending; bob is unregistered with one message pending.
\<close>

theorem registered_client_has_no_pending_witness:
  "keys (active_connections
           (run [ReceiveOtp {} 1 alice_otp, Connect True {} 7 ''alice'', Connect True {} 8 ''bob'',
                 ReceiveOtp {8} 2 (alice_otp\<lparr>user_id := ''bob''\<rparr>)])) = {''alice''} \<and>
   keys (pending_otps
           (run [ReceiveOtp {} 1 alice_otp, Connect True {} 7 ''alice'', Connect True {} 8 ''bob'',
                 ReceiveOtp {8} 2 (alice_otp\<lparr>user_id := ''bob''\<rparr>)])) = {''bob''} \<and>
   no_pending_while_connected
     (run [ReceiveOtp {} 1 alice_otp, Connect True {} 7 ''alice'', Connect True {} 8 ''bob'',
           ReceiveOtp {8} 2 (alice_otp\<lparr>user_id := ''bob''\<rparr>)]) \<and>
   no_pending_while_connected
     (disconnect ''alice''
        (run [ReceiveOtp {} 1 alice_otp, Connect True {} 7 ''alice'', Connect True {} 8 ''bob'',
              ReceiveOtp {8} 2 (alice_otp\<lparr>user_id := ''bob''\<rparr>)]))"
  using registered_client_has_no_pending
    [where evs = "[ReceiveOtp {} 1 alice_otp, Connect True {} 7 ''alice'', Connect True {} 8 ''bob'',
          ReceiveOtp {8} 2 (alice_otp\<lparr>user_id := ''bob''\<rparr>)]"
       and s = "run [ReceiveOtp {} 1 alice_otp, Connect True {} 7 ''alice'', Connect True {} 8 ''bob'',
          ReceiveOtp {8} 2 (alice_otp\<lparr>user_id := ''bob''\<rparr>)]"
       and uid = "''alice''"]
  by (simp add: run_def init_def connect_def receive_otp_def send_otp_def send_json_def
      disconnect_def keys_def alice_otp_def otp_info_def)

subsection \<open>C1: delivery to a connected client\<close>

text \<open>
  Claim C1. When \<open>receive_otp\<close> runs for a client that is registered and the send over its
  socket succeeds, exactly the constructed \<open>otp_info\<close> is written to that socket and
  nothing else changes, the response status is "delivered", and the pending queue is
  untouched; the client has no pending entry afterward whenever the state satisfies the
  invariant of C9, in particular after every history from the initial state.
\<close>

theorem receive_otp_delivered:
  "map_of (active_connections s) (user_id data) = Some websocket \<Longrightarrow> websocket \<notin> broken \<Longrightarrow>
   receive_otp broken now data s =
     ((''delivered'', user_id data), s\<lparr>wire := wire s @ [(websocket, otp_info now data)]\<rparr>) \<and>
   pending_otps (snd (receive_otp broken now data s)) = pending_otps s \<and>
   (no_pending_while_connected s \<longrightarrow>
      user_id data \<notin> keys (pending_otps (snd (receive_otp broken now data s)))) \<and>
   (s = run evs \<longrightarrow> user_id data \<notin> keys (pending_otps (snd (receive_otp broken now data s))))"
proof -
  assume reg: "map_of (active_connections s) (user_id data) = Some websocket"
    and up: "websocket \<notin> broken"
  have eq: "receive_otp broken now data s =
     ((''delivered'', user_id data), s\<lparr>wire := wire s @ [(websocket, otp_info now data)]\<rparr>)"
    using reg up by (rule receive_otp_registered)
  from reg have conn: "user_id data \<in> keys (active_connections s)"
    by (simp add: keys_map_of)
  have same: "pending_otps (snd (receive_otp broken now data s)) = pending_otps s"
    by (simp add: eq)
  have inv: "user_id data \<notin> keys (pending_otps s)" if "no_pending_while_connected s"
    using that conn by (simp add: no_pending_while_connected_def)
  have reach: "user_id data \<notin> keys (pending_otps s)" if "s = run evs"
    using that inv run_inv [of evs] by simp
  show ?thesis
  proof (intro conjI impI)
    show "receive_otp broken now data s =
      ((''delivered'', user_id data), s\<lparr>wire := wire s @ [(websocket, otp_info now data)]\<rparr>)"
      by (rule eq)
    show "pending_otps (snd (receive_otp broken now data s)) = pending_otps s"
      by (rule same)
    show "user_id data \<notin> keys (pending_otps (snd (receive_otp broken now data s)))"
      if "no_pending_while_connected s"
      unfolding same by (rule inv [OF that])
    show "user_id data \<notin> keys (pending_otps (snd (receive_otp broken now data s)))"
      if "s = run evs"
      unfolding same by (rule reach [OF that])
  qed
qed

theorem receive_otp_delivered_witness:
  "map_of (active_connections (run [Connect True {} 7 ''alice''])) (user_id alice_otp) = Some 7 \<and>
   7 \<notin> ({} :: WebSocket set) \<and>
   receive_otp {} 5 alice_otp (run [Connect True {} 7 ''alice'']) =
     ((''delivered'', ''alice''),
      \<lparr>active_connections = [(''alice'', 7)], pending_otps = [], user_emails = [],
       wire = [(7, OtpInfo ''123456'' ''a@x.com'' ''Unknown'' [] 5)]\<rparr>) \<and>
   ''alice'' \<notin> keys (pending_otps (snd (receive_otp {} 5 alice_otp (run [Connect True {} 7 ''alice'']))))"
  using receive_otp_delivered [of "run [Connect True {} 7 ''alice'']" alice_otp 7 "{}" 5
      "[Connect True {} 7 ''alice'']"]
  by (simp add: run_def init_def connect_def alice_otp_def otp_info_def keys_def)

subsection \<open>C2: a passcode for a client that is not connected\<close>

text \<open>
  Claim C2. When \<open>receive_otp\<close> runs for a client that is not registered, the response
  status is "pending" and the constructed message is stored under the client's id, whatever
  was stored there before: the queue then holds exactly one entry for that id (every key
  of a dictionary occurring once). A second passcode for the same client, still away,
  leaves the state that the second message alone would have left, and a later \<open>connect\<close>
  whose send succeeds writes that second message, and nothing else, to the new socket.
\<close>

theorem receive_otp_queued:
  "user_id data \<notin> keys (active_connections s) \<Longrightarrow>
   receive_otp broken now data s =
     ((''pending'', user_id data),
      s\<lparr>pending_otps := AList.update (user_id data) (otp_info now data) (pending_otps s)\<rparr>) \<and>
   map_of (pending_otps (snd (receive_otp broken now data s))) (user_id data)
     = Some (otp_info now data) \<and>
   (distinct (map fst (pending_otps s)) \<longrightarrow>
      length (filter (\<lambda>p. fst p = user_id data) (pending_otps (snd (receive_otp broken now data s))))
        = 1) \<and>
   (user_id data' = user_id data \<longrightarrow>
      receive_otp broken' now' data' (snd (receive_otp broken now data s)) =
        ((''pending'', user_id data),
         s\<lparr>pending_otps := AList.update (user_id data) (otp_info now' data') (pending_otps s)\<rparr>) \<and>
      (websocket \<notin> broken'' \<longrightarrow>
         connect True broken'' websocket (user_id data)
             (snd (receive_otp broken' now' data' (snd (receive_otp broken now data s)))) =
           Some (s\<lparr>active_connections := AList.update (user_id data) websocket (active_connections s),
                    pending_otps := AList.delete (user_id data) (pending_otps s),
                    wire := wire s @ [(websocket, otp_info now' data')]\<rparr>)))"
proof -
  assume away: "user_id data \<notin> keys (active_connections s)"
  let ?u = "user_id data"
  let ?s1 = "s\<lparr>pending_otps := AList.update ?u (otp_info now data) (pending_otps s)\<rparr>"
  have first: "receive_otp broken now data s = ((''pending'', ?u), ?s1)"
    using away by (rule receive_otp_unregistered)
  have stored: "map_of (pending_otps (snd (receive_otp broken now data s))) ?u = Some (otp_info now data)"
    by (simp add: first update_conv')
  have once: "length (filter (\<lambda>p. fst p = ?u) (pending_otps (snd (receive_otp broken now data s)))) = 1"
    if "distinct (map fst (pending_otps s))"
    using that by (simp add: first one_entry_after_update)
  have second: "receive_otp broken' now' data' (snd (receive_otp broken now data s)) =
        ((''pending'', ?u),
         s\<lparr>pending_otps := AList.update ?u (otp_info now' data') (pending_otps s)\<rparr>)"
    if same: "user_id data' = ?u"
  proof -
    have "user_id data' \<notin> keys (active_connections ?s1)" using away same by simp
    then have "receive_otp broken' now' data' ?s1 =
        ((''pending'', user_id data'),
         ?s1\<lparr>pending_otps := AList.update (user_id data') (otp_info now' data') (pending_otps ?s1)\<rparr>)"
      by (rule receive_otp_unregistered)
    then show ?thesis by (simp add: first same)
  qed
  have flush: "connect True broken'' websocket ?u
             (snd (receive_otp broken' now' data' (snd (receive_otp broken now data s)))) =
           Some (s\<lparr>active_connections := AList.update ?u websocket (active_connections s),
                    pending_otps := AList.delete ?u (pending_otps s),
                    wire := wire s @ [(websocket, otp_info now' data')]\<rparr>)"
    if same: "user_id data' = ?u" and up: "websocket \<notin> broken''"
  proof -
    let ?s2 = "s\<lparr>pending_otps := AList.update ?u (otp_info now' data') (pending_otps s)\<rparr>"
    have "map_of (pending_otps ?s2) ?u = Some (otp_info now' data')"
      by (simp add: update_conv')
    then have "connect True broken'' websocket ?u ?s2 =
       Some (if websocket \<in> broken''
           then ?s2\<lparr>active_connections := AList.delete ?u (active_connections ?s2),
                    pending_otps := AList.delete ?u (pending_otps ?s2)\<rparr>
           else ?s2\<lparr>active_connections := AList.update ?u websocket (active_connections ?s2),
                    pending_otps := AList.delete ?u (pending_otps ?s2),
                    wire := wire ?s2 @ [(websocket, otp_info now' data')]\<rparr>)"
      by (rule connect_with_pending)
    then show ?thesis using up by (simp add: second [OF same] delete_update_same)
  qed
  show ?thesis
    using first stored once second flush by (intro conjI impI)
qed

theorem receive_otp_queued_witness:
  "user_id alice_otp \<notin> keys (active_connections init) \<and>
   distinct (map fst (pending_otps init)) \<and>
   user_id (alice_otp\<lparr>otp := ''654321''\<rparr>) = user_id alice_otp \<and>
   (7::nat) \<notin> {} \<and>
   receive_otp {} 1 alice_otp init =
     ((''pending'', ''alice''),
      init\<lparr>pending_otps := [(''alice'', OtpInfo ''123456'' ''a@x.com'' ''Unknown'' [] 1)]\<rparr>) \<and>
   receive_otp {} 2 (alice_otp\<lparr>otp := ''654321''\<rparr>) (snd (receive_otp {} 1 alice_otp init)) =
     ((''pending'', ''alice''),
      init\<lparr>pending_otps := [(''alice'', OtpInfo ''654321'' ''a@x.com'' ''Unknown'' [] 2)]\<rparr>) \<and>
   connect True {} 7 ''alice''
       (snd (receive_otp {} 2 (alice_otp\<lparr>otp := ''654321''\<rparr>) (snd (receive_otp {} 1 alice_otp init)))) =
     Some (init\<lparr>active_connections := [(''alice'', 7)],
                wire := [(7, OtpInfo ''654321'' ''a@x.com'' ''Unknown'' [] 2)]\<rparr>)"
  using receive_otp_queued [where data = alice_otp and s = init
      and data' = "alice_otp\<lparr>otp := ''654321''\<rparr>" and broken = "{}" and now = 1
      and broken' = "{}" and now' = 2 and websocket = 7 and broken'' = "{}"]
  by (simp add: init_def alice_otp_def otp_info_def keys_def receive_otp_def send_otp_def
      connect_def send_json_def)

subsection \<open>C3: connecting flushes the pending message\<close>

text \<open>
  Claim C3. When \<open>connect\<close> registers a socket (the handshake is accepted) for a client
  with a buffered message, the message leaves the queue in every case and the queue
  reports nothing for that client afterward. One send is tried over the new socket: when
  it succeeds the socket gets exactly that message and the client is registered with the
  new socket; when it fails nothing is sent, the client is unregistered and the message
  is not put back.
\<close>

theorem connect_flushes_pending:
  "map_of (pending_otps s) uid = Some data \<Longrightarrow>
   connect True broken websocket uid s =
     Some (if websocket \<in> broken
           then s\<lparr>active_connections := AList.delete uid (active_connections s),
                    pending_otps := AList.delete uid (pending_otps s)\<rparr>
           else s\<lparr>active_connections := AList.update uid websocket (active_connections s),
                    pending_otps := AList.delete uid (pending_otps s),
                    wire := wire s @ [(websocket, data)]\<rparr>) \<and>
   (\<exists>s'. connect True broken websocket uid s = Some s' \<and>
      uid \<notin> keys (pending_otps s') \<and>
      map_of (pending_otps s') uid = None \<and>
      \<not> snd (snd (user_status uid s')) \<and>
      (websocket \<notin> broken \<longrightarrow>
         wire s' = wire s @ [(websocket, data)] \<and>
         map_of (active_connections s') uid = Some websocket) \<and>
      (websocket \<in> broken \<longrightarrow>
         wire s' = wire s \<and> uid \<notin> keys (active_connections s')))"
proof -
  assume pend: "map_of (pending_otps s) uid = Some data"
  let ?s' = "if websocket \<in> broken
           then s\<lparr>active_connections := AList.delete uid (active_connections s),
                    pending_otps := AList.delete uid (pending_otps s)\<rparr>
           else s\<lparr>active_connections := AList.update uid websocket (active_connections s),
                    pending_otps := AList.delete uid (pending_otps s),
                    wire := wire s @ [(websocket, data)]\<rparr>"
  have eq: "connect True broken websocket uid s = Some ?s'"
    using pend by (rule connect_with_pending)
  have gone: "uid \<notin> keys (pending_otps ?s')" by (simp add: keys_delete)
  have none: "map_of (pending_otps ?s') uid = None"
    unfolding map_of_keys_None by (rule gone)
  have status: "\<not> snd (snd (user_status uid ?s'))" using gone by (simp add: user_status_def)
  have ok: "websocket \<notin> broken \<Longrightarrow>
      wire ?s' = wire s @ [(websocket, data)] \<and> map_of (active_connections ?s') uid = Some websocket"
    by (simp add: update_conv')
  have bad: "websocket \<in> broken \<Longrightarrow> wire ?s' = wire s \<and> uid \<notin> keys (active_connections ?s')"
    by (simp add: keys_delete)
  show ?thesis
    using eq gone none status ok bad by blast
qed

theorem connect_flushes_pending_witness:
  "map_of (pending_otps (run [ReceiveOtp {} 1 alice_otp])) ''alice''
     = Some (OtpInfo ''123456'' ''a@x.com'' ''Unknown'' [] 1) \<and>
   connect True {} 7 ''alice'' (run [ReceiveOtp {} 1 alice_otp]) =
     Some \<lparr>active_connections = [(''alice'', 7)], pending_otps = [], user_emails = [],
           wire = [(7, OtpInfo ''123456'' ''a@x.com'' ''Unknown'' [] 1)]\<rparr> \<and>
   connect True {7} 7 ''alice'' (run [ReceiveOtp {} 1 alice_otp]) =
     Some \<lparr>active_connections = [], pending_otps = [], user_emails = [], wire = []\<rparr>"
  using connect_flushes_pending [of "run [ReceiveOtp {} 1 alice_otp]" "''alice''"
      "OtpInfo ''123456'' ''a@x.com'' ''Unknown'' [] 1" "{}" 7]
    connect_flushes_pending [of "run [ReceiveOtp {} 1 alice_otp]" "''alice''"
      "OtpInfo ''123456'' ''a@x.com'' ''Unknown'' [] 1" "{7}" 7]
  by (simp add: run_def init_def receive_otp_def send_otp_def alice_otp_def otp_info_def)

subsection \<open>C6: a failing recipient does not stop the broadcast\<close>

text \<open>
  Claim C6. \<open>broadcast_status\<close> tries the status frame (the two counts taken before the
  loop, and the timestamp) on every registered socket, in registry order. Exactly the
  recipients whose send fails are removed from the registry, every other recipient stays
  registered and gets the frame once, also those that come after a failing one; the
  pending queue and the email map are not touched. With three clients and the second
  socket broken, the first and the third get the frame and the second is unregistered.
\<close>

theorem broadcast_status_reaches_the_rest:
  "distinct (map fst (active_connections s)) \<Longrightarrow>
   wire (broadcast_status broken now s) =
     wire s @ map (\<lambda>(uid, websocket).
                     (websocket,
                      ServerStatus (length (active_connections s)) (length (pending_otps s)) now))
                  (filter (\<lambda>(uid, websocket). websocket \<notin> broken) (active_connections s)) \<and>
   active_connections (broadcast_status broken now s) =
     filter (\<lambda>(uid, websocket). websocket \<notin> broken) (active_connections s) \<and>
   pending_otps (broadcast_status broken now s) = pending_otps s \<and>
   user_emails (broadcast_status broken now s) = user_emails s"
  by (simp add: broadcast_status_def broadcast_loop_wire broadcast_loop_rest
      broadcast_loop_active failing_keys_distinct)

theorem broadcast_status_reaches_the_rest_witness:
  "distinct (map fst (active_connections
      (run [Connect True {} 1 ''ann'', Connect True {} 2 ''bob'', Connect True {} 3 ''cy'']))) \<and>
   active_connections
      (run [Connect True {} 1 ''ann'', Connect True {} 2 ''bob'', Connect True {} 3 ''cy''])
     = [(''ann'', 1), (''bob'', 2), (''cy'', 3)] \<and>
   wire (broadcast_status {2} ''t''
      (run [Connect True {} 1 ''ann'', Connect True {} 2 ''bob'', Connect True {} 3 ''cy'']))
     = [(1, ServerStatus 3 0 ''t''), (3, ServerStatus 3 0 ''t'')] \<and>
   active_connections (broadcast_status {2} ''t''
      (run [Connect True {} 1 ''ann'', Connect True {} 2 ''bob'', Connect True {} 3 ''cy'']))
     = [(''ann'', 1), (''cy'', 3)]"
  using broadcast_status_reaches_the_rest
    [of "run [Connect True {} 1 ''ann'', Connect True {} 2 ''bob'', Connect True {} 3 ''cy'']"
        "{2}" "''t''"]
  by (simp add: run_def init_def connect_def)

subsection \<open>C8: a quiet connection gets a ping\<close>

text \<open>
  Claim C8. When no frame comes within the 30 time units that \<open>wait_for\<close> allows (nothing
  ever comes, or the next frame would come later than that) and the socket takes the
  send, one pass of the loop writes \<open>Ping\<close> to that socket and changes nothing else: the
  registry is as before, and the loop goes on with the rest of its script.
\<close>

theorem timeout_sends_ping:
  "incoming = None \<or> (\<exists>delay r. incoming = Some (delay, r) \<and> 30 < delay) \<Longrightarrow>
   websocket \<notin> broken \<Longrightarrow>
   wait_for 30 incoming = None \<and>
   loop_body broken now websocket uid incoming s =
     Continue (s\<lparr>wire := wire s @ [(websocket, Ping)]\<rparr>) \<and>
   while_True websocket uid ((broken, now, incoming) # rest) s =
     while_True websocket uid rest (s\<lparr>wire := wire s @ [(websocket, Ping)]\<rparr>) \<and>
   active_connections (s\<lparr>wire := wire s @ [(websocket, Ping)]\<rparr>) = active_connections s"
proof -
  assume quiet: "incoming = None \<or> (\<exists>delay r. incoming = Some (delay, r) \<and> 30 < delay)"
    and up: "websocket \<notin> broken"
  from quiet have t: "wait_for 30 incoming = None"
    by (auto simp: wait_for_def)
  then have body: "loop_body broken now websocket uid incoming s =
      Continue (s\<lparr>wire := wire s @ [(websocket, Ping)]\<rparr>)"
    using up by (simp add: loop_body_def send_or_exit_up)
  then show ?thesis using t by simp
qed

theorem timeout_sends_ping_witness:
  "(30::real) < 31 \<and> (7::nat) \<notin> {} \<and>
   loop_body {} 100 7 ''alice'' None (run [Connect True {} 7 ''alice'']) =
     Continue \<lparr>active_connections = [(''alice'', 7)], pending_otps = [], user_emails = [],
               wire = [(7, Ping)]\<rparr> \<and>
   loop_body {} 100 7 ''alice'' (Some (31, Text (Decoded (JObject [(''type'', JString ''ping'')]))))
       (run [Connect True {} 7 ''alice'']) =
     Continue \<lparr>active_connections = [(''alice'', 7)], pending_otps = [], user_emails = [],
               wire = [(7, Ping)]\<rparr>"
  using timeout_sends_ping [of None 7 "{}" 100 "''alice''" "run [Connect True {} 7 ''alice'']" "[]"]
    timeout_sends_ping [of "Some (31, Text (Decoded (JObject [(''type'', JString ''ping'')])))"
      7 "{}" 100 "''alice''" "run [Connect True {} 7 ''alice'']" "[]"]
  by (simp add: run_def init_def connect_def)

subsection \<open>C5: \<open>register_email\<close> does not queue\<close>

text \<open>
  Claim C5, as stated, is that an email registration for a client that is not connected
  is stored in the pending queue. The code calls \<open>send_otp\<close> and drops its result: for bob,
  not connected, the queue is still empty afterward.
\<close>

theorem register_email_counterexample:
  "''bob'' \<notin> keys (active_connections init) \<and>
   register_email {} 3 bob_email init =
     ((''registered'', ''b@x.com''), init\<lparr>user_emails := [(''bob'', ''b@x.com'')]\<rparr>) \<and>
   pending_otps (snd (register_email {} 3 bob_email init)) = [] \<and>
   map_of (pending_otps (snd (register_email {} 3 bob_email init))) ''bob''
     \<noteq> Some (email_info 3 bob_email)"
  by (simp add: init_def register_email_def send_otp_def keys_def bob_email_def)

text \<open>
  Claim C5, amended. \<open>register_email\<close> answers "registered" and stores the address under the
  client's id in every case, and never changes the pending queue. It tries one send of
  \<open>email_info\<close>: a client that is not registered gets nothing and nothing else changes; a
  registered client whose socket takes the send gets exactly that frame; when the send
  fails nothing is sent and the client is unregistered. The message is not kept.
\<close>

theorem register_email_never_queues:
  "fst (register_email broken now data s) = (''registered'', email_address data) \<and>
   user_emails (snd (register_email broken now data s)) =
     AList.update (email_user_id data) (email_address data) (user_emails s) \<and>
   map_of (user_emails (snd (register_email broken now data s))) (email_user_id data) =
     Some (email_address data) \<and>
   pending_otps (snd (register_email broken now data s)) = pending_otps s \<and>
   (email_user_id data \<notin> keys (active_connections s) \<longrightarrow>
      wire (snd (register_email broken now data s)) = wire s \<and>
      active_connections (snd (register_email broken now data s)) = active_connections s) \<and>
   (\<forall>websocket. map_of (active_connections s) (email_user_id data) = Some websocket \<longrightarrow>
      (websocket \<notin> broken \<longrightarrow>
         wire (snd (register_email broken now data s)) =
           wire s @ [(websocket, email_info now data)] \<and>
         active_connections (snd (register_email broken now data s)) = active_connections s) \<and>
      (websocket \<in> broken \<longrightarrow>
         wire (snd (register_email broken now data s)) = wire s \<and>
         email_user_id data \<notin> keys (active_connections (snd (register_email broken now data s)))))"
  by (auto simp: register_email_eq send_otp_cases disconnect_eq update_conv' keys_delete
      keys_map_of split: option.splits)

theorem register_email_never_queues_witness:
  "email_user_id bob_email \<notin> keys (active_connections init) \<and>
   register_email {} 3 bob_email init =
     ((''registered'', ''b@x.com''), init\<lparr>user_emails := [(''bob'', ''b@x.com'')]\<rparr>) \<and>
   map_of (active_connections (run [Connect True {} 8 ''bob''])) (email_user_id bob_email) = Some 8 \<and>
   register_email {} 3 bob_email (run [Connect True {} 8 ''bob'']) =
     ((''registered'', ''b@x.com''),
      \<lparr>active_connections = [(''bob'', 8)], pending_otps = [],
       user_emails = [(''bob'', ''b@x.com'')], wire = [(8, EmailInfo ''b@x.com'' 3)]\<rparr>) \<and>
   register_email {8} 3 bob_email (run [Connect True {} 8 ''bob'']) =
     ((''registered'', ''b@x.com''),
      \<lparr>active_connections = [], pending_otps = [],
       user_emails = [(''bob'', ''b@x.com'')], wire = []\<rparr>)"
  using register_email_never_queues [of "{}" 3 bob_email init]
    register_email_never_queues [of "{}" 3 bob_email "run [Connect True {} 8 ''bob'']"]
    register_email_never_queues [of "{8}" 3 bob_email "run [Connect True {} 8 ''bob'']"]
  by (simp add: run_def init_def connect_def register_email_def send_otp_def send_json_def
      disconnect_def keys_def bob_email_def email_info_def)

subsection \<open>C4: frames the loop does not understand\<close>

text \<open>
  Claim C4, as stated, is that a payload that is not valid JSON is ignored, the loop goes on
  and the client stays registered. In the code \<open>json.loads\<close> raises inside the outer \<open>try\<close>,
  \<open>except Exception\<close> calls \<open>manager.disconnect\<close> and the endpoint returns; the same happens
  for valid JSON that is not an object, where \<open>message.get\<close> raises. Alice, connected, sends
  such a payload: the loop exits, the rest of the script is never read, and alice is
  unregistered.
\<close>

theorem malformed_frame_counterexample:
  "''alice'' \<in> keys (active_connections (run [Connect True {} 7 ''alice''])) \<and>
   loop_body {} 100 7 ''alice'' (Some (1, Text JSONDecodeError)) (run [Connect True {} 7 ''alice''])
     = Exit (disconnect ''alice'' (run [Connect True {} 7 ''alice''])) \<and>
   loop_body {} 100 7 ''alice'' (Some (1, Text (Decoded (JArray [])))) (run [Connect True {} 7 ''alice''])
     = Exit (disconnect ''alice'' (run [Connect True {} 7 ''alice''])) \<and>
   while_True 7 ''alice'' [({}, 100, Some (1, Text JSONDecodeError)), ({}, 101, None)]
       (run [Connect True {} 7 ''alice''])
     = Exit (disconnect ''alice'' (run [Connect True {} 7 ''alice''])) \<and>
   ''alice'' \<notin> keys (active_connections (disconnect ''alice'' (run [Connect True {} 7 ''alice''])))"
  by (simp add: run_def init_def connect_def disconnect_def keys_def loop_body_def wait_for_def
      handle_message_def)

text \<open>
  Claim C4, amended. A frame received in time whose payload is a JSON object with no
  \<open>type\<close>, or with a \<open>type\<close> other than the strings "ping" and "status", is ignored: the state
  is unchanged (no frame is sent, the registry is as before) and the loop goes on. A
  payload that is not valid JSON, or that is valid JSON but not an object, ends the loop:
  no frame is sent and the client's id is unregistered.
\<close>

theorem unrecognized_frame:
  "(incoming = Some (delay, Text (Decoded (JObject d))) \<and> delay \<le> 30 \<and>
    map_of d ''type'' \<noteq> Some (JString ''ping'') \<and>
    map_of d ''type'' \<noteq> Some (JString ''status'') \<longrightarrow>
      loop_body broken now websocket uid incoming s = Continue s \<and>
      while_True websocket uid ((broken, now, incoming) # rest) s =
        while_True websocket uid rest s) \<and>
   (delay \<le> 30 \<and>
    (incoming = Some (delay, Text JSONDecodeError) \<or>
     incoming = Some (delay, Text (Decoded message)) \<and> (\<forall>d. message \<noteq> JObject d)) \<longrightarrow>
      loop_body broken now websocket uid incoming s = Exit (disconnect uid s) \<and>
      while_True websocket uid ((broken, now, incoming) # rest) s = Exit (disconnect uid s) \<and>
      wire (disconnect uid s) = wire s \<and>
      uid \<notin> keys (active_connections (disconnect uid s)))"
proof (intro conjI impI)
  assume a: "incoming = Some (delay, Text (Decoded (JObject d))) \<and> delay \<le> 30 \<and>
    map_of d ''type'' \<noteq> Some (JString ''ping'') \<and>
    map_of d ''type'' \<noteq> Some (JString ''status'')"
  then show body: "loop_body broken now websocket uid incoming s = Continue s"
    by (simp add: loop_body_def wait_for_def handle_message_def)
  then show "while_True websocket uid ((broken, now, incoming) # rest) s =
        while_True websocket uid rest s"
    by simp
next
  assume b: "delay \<le> 30 \<and>
    (incoming = Some (delay, Text JSONDecodeError) \<or>
     incoming = Some (delay, Text (Decoded message)) \<and> (\<forall>d. message \<noteq> JObject d))"
  then show body: "loop_body broken now websocket uid incoming s = Exit (disconnect uid s)"
    by (auto simp: loop_body_def wait_for_def handle_message_def split: json.splits)
  then show "while_True websocket uid ((broken, now, incoming) # rest) s = Exit (disconnect uid s)"
    by simp
  show "wire (disconnect uid s) = wire s" by (simp add: disconnect_eq)
  show "uid \<notin> keys (active_connections (disconnect uid s))"
    by (simp add: disconnect_eq keys_delete)
qed

theorem unrecognized_frame_witness:
  "(1::real) \<le> 30 \<and>
   map_of [(''action'', JString ''status'')] ''type'' \<noteq> Some (JString ''ping'') \<and>
   map_of [(''action'', JString ''status'')] ''type'' \<noteq> Some (JString ''status'') \<and>
   loop_body {} 100 7 ''alice'' (Some (1, Text (Decoded (JObject [(''action'', JString ''status'')]))))
       (run [Connect True {} 7 ''alice'']) = Continue (run [Connect True {} 7 ''alice'']) \<and>
   loop_body {} 100 7 ''alice'' (Some (1, Text JSONDecodeError)) (run [Connect True {} 7 ''alice''])
     = Exit init \<and>
   loop_body {} 100 7 ''alice'' (Some (1, Text (Decoded (JArray [])))) (run [Connect True {} 7 ''alice''])
     = Exit init"
  using unrecognized_frame [of "Some (1, Text (Decoded (JObject [(''action'', JString ''status'')])))"
      1 "[(''action'', JString ''status'')]" "{}" 100 7 "''alice''" "run [Connect True {} 7 ''alice'']"
      "[]" "JNull"]
    unrecognized_frame [of "Some (1, Text JSONDecodeError)"
      1 "[]" "{}" 100 7 "''alice''" "run [Connect True {} 7 ''alice'']" "[]" "JNull"]
    unrecognized_frame [of "Some (1, Text (Decoded (JArray [])))"
      1 "[]" "{}" 100 7 "''alice''" "run [Connect True {} 7 ''alice'']" "[]" "JArray []"]
  by (simp add: run_def init_def connect_def disconnect_def keys_def)

end
